theory Spec2Isabelle
  imports Main "HOL-Library.AList"
begin

section \<open>The environment of the script\<close>

text \<open>
  The script \<^verbatim>\<open>directory_traversal_log_generator.py\<close> is a linear sequence of
  effects on its environment: it prompts, walks a directory tree with \<^verbatim>\<open>os.walk\<close>,
  writes \<^verbatim>\<open>directory_traversal_log.txt\<close>, mails it with \<^verbatim>\<open>yagmail\<close> and hands it to
  \<^verbatim>\<open>send2trash\<close>. The functions of the script are embedded below as state
  transformers on a record \<open>world\<close>. What they call in the Python library and the
  operating system is modelled in this section, with these assumptions, each one
  visible in a definition:
  \<^item> strings are byte strings (a name is the UTF-8 encoding of what Python holds);
  \<^item> the file system is a finite tree of files and directories without symbolic
    links; a directory is listable or not (\<^verbatim>\<open>os.scandir\<close> succeeds or raises
    \<^verbatim>\<open>OSError\<close>), and lists its entries in the order the tree stores them;
  \<^item> files carry no permissions: opening an existing file for writing succeeds;
  \<^item> a path is split at the platform's separator \<open>sep\<close>; \<^verbatim>\<open>.\<close> and \<^verbatim>\<open>..\<close> are
    resolved lexically; a path is absolute when it starts with the separator, after
    a drive \<^verbatim>\<open>X:\<close> where the separator is the backslash;
  \<^item> \<^verbatim>\<open>os.path.join\<close> follows the rule of \<^verbatim>\<open>posixpath.join\<close>, with the platform's
    separator; a platform has one separator (that Windows also accepts the slash is
    not modelled);
  \<^item> \<^verbatim>\<open>send2trash\<close> moves the entry at its path to the trash, and raises when there is
    none;
  \<^item> the clock, the host name, the user name, the answers typed at the prompts and
    the outcome of the mail dispatch are inputs of a run.
\<close>

subsection \<open>The file system\<close>

datatype node = File string | Dir bool "(string \<times> node) list"

fun is_dir :: "node \<Rightarrow> bool" where
  "is_dir (Dir listable es) = True"
| "is_dir (File c) = False"

text \<open>The node at a list of path components, from a given node.\<close>

fun lookup :: "node \<Rightarrow> string list \<Rightarrow> node option" where
  "lookup n [] = Some n"
| "lookup (File c) (x # xs) = None"
| "lookup (Dir listable es) (x # xs) =
     (case map_of es x of None \<Rightarrow> None | Some n \<Rightarrow> lookup n xs)"

text \<open>
  \<^verbatim>\<open>open(p, 'w+')\<close> followed by writing \<open>c\<close> and closing: the file is created when
  its directory exists and has no entry of that name, and truncated when the entry
  is a file. \<open>None\<close> is the \<^verbatim>\<open>OSError\<close> of \<^verbatim>\<open>open\<close> (the path is a directory, or its
  directory does not exist).
\<close>

fun store :: "node \<Rightarrow> string list \<Rightarrow> string \<Rightarrow> node option" where
  "store (File old) [] c = Some (File c)"
| "store (Dir listable es) [] c = None"
| "store (File old) (x # xs) c = None"
| "store (Dir listable es) (x # xs) c =
     (case map_of es x of
        None \<Rightarrow> (if xs = [] then Some (Dir listable (AList.update x (File c) es)) else None)
      | Some n \<Rightarrow>
          (case store n xs c of
             None \<Rightarrow> None
           | Some n' \<Rightarrow> Some (Dir listable (AList.update x n' es))))"

text \<open>Taking the entry at a path out of the tree.\<close>

fun remove :: "node \<Rightarrow> string list \<Rightarrow> node" where
  "remove n [] = n"
| "remove (File c) (x # xs) = File c"
| "remove (Dir listable es) (x # xs) =
     (if xs = [] then Dir listable (AList.delete x es)
      else (case map_of es x of
              None \<Rightarrow> Dir listable es
            | Some n \<Rightarrow> Dir listable (AList.update x (remove n xs) es)))"

subsection \<open>Paths\<close>

definition backslash :: char where
  "backslash = CHR 0x5C"

definition newline :: char where
  "newline = CHR 0x0A"

text \<open>Python's \<^verbatim>\<open>str.split(s)\<close> for a one-character separator.\<close>

fun split_on :: "char \<Rightarrow> string \<Rightarrow> string list" where
  "split_on s [] = [[]]"
| "split_on s (c # cs) =
     (case split_on s cs of
        [] \<Rightarrow> [[c]]
      | x # xs \<Rightarrow> (if c = s then [] # x # xs else (c # x) # xs))"

definition components :: "char \<Rightarrow> string \<Rightarrow> string list" where
  "components s p = filter (\<lambda>x. x \<noteq> []) (split_on s p)"

definition step :: "string list \<Rightarrow> string \<Rightarrow> string list" where
  "step acc x = (if x = ''.'' then acc else if x = ''..'' then butlast acc else acc @ [x])"

text \<open>
  \<^verbatim>\<open>os.path.isabs\<close>: the path starts with the separator; where the separator is the
  backslash a drive such as \<^verbatim>\<open>C:\<close> may come first.
\<close>

definition isabs :: "char \<Rightarrow> string \<Rightarrow> bool" where
  "isabs s p =
     (let r = (if s = backslash \<and> 2 \<le> length p \<and> p ! 1 = CHR '':'' then drop 2 p else p)
      in r \<noteq> [] \<and> hd r = s)"

text \<open>
  \<^verbatim>\<open>posixpath.join(a, b)\<close>, with the separator as a parameter:
  \<^verbatim>\<open>
  if b.startswith(sep): path = b
  elif not path or path.endswith(sep): path += b
  else: path += sep + b
  \<close>
\<close>

definition join :: "char \<Rightarrow> string \<Rightarrow> string \<Rightarrow> string" where
  "join s a b =
     (if b \<noteq> [] \<and> hd b = s then b
      else if a = [] \<or> last a = s then a @ b
      else a @ s # b)"

subsection \<open>The world and the inputs of a run\<close>

text \<open>
  \<open>watch\<close> is the \<^verbatim>\<open>datetime\<close> object as the script reads it: the three strings
  \<^verbatim>\<open>str(watch.date())\<close>, \<^verbatim>\<open>str(watch.time())\<close> and \<^verbatim>\<open>watch.strftime('%A')\<close>.
\<close>

record watch =
  date :: string
  time :: string
  day :: string

record message =
  sender :: string
  password :: string
  to :: string
  subject :: string
  contents :: string
  attachments :: string

datatype exn = OSError string | MailError string

fun str :: "exn \<Rightarrow> string" where
  "str (OSError m) = m"
| "str (MailError m) = m"

datatype event =
    Out string
  | Opened "string list"
  | Closed "string list"
  | Mailed message "exn option"
  | Trash string

record world =
  sep :: char
  cwd :: string
  fs :: node
  trashed :: "(string list \<times> node) list"
  trace :: "event list"

record input =
  path_answer :: string
  email_answer :: string
  now :: watch
  hostname :: string
  username :: string
  smtp :: "message \<Rightarrow> exn option"

datatype 'a outcome = Returns 'a | SystemExit nat | Raised exn

definition emit :: "event \<Rightarrow> world \<Rightarrow> world" where
  "emit e w = w\<lparr>trace := trace w @ [e]\<rparr>"

text \<open>\<^verbatim>\<open>print(s)\<close> writes \<open>s\<close> and a line feed.\<close>

definition print :: "string \<Rightarrow> world \<Rightarrow> world" where
  "print s w = emit (Out (s @ [newline])) w"

text \<open>The components a path string denotes in a world, and the node there.\<close>

definition resolve :: "world \<Rightarrow> string \<Rightarrow> string list" where
  "resolve w p =
     foldl step
       (if isabs (sep w) p then [] else foldl step [] (components (sep w) (cwd w)))
       (components (sep w) p)"

definition stat :: "world \<Rightarrow> string \<Rightarrow> node option" where
  "stat w p = (if p = [] then None else lookup (fs w) (resolve w p))"

subsection \<open>\<^verbatim>\<open>os.walk\<close>\<close>

text \<open>
  \<^verbatim>\<open>os.walk(top)\<close> with its defaults (\<^verbatim>\<open>topdown=True\<close>, \<^verbatim>\<open>onerror=None\<close>,
  \<^verbatim>\<open>followlinks=False\<close>) is a generator: the call runs none of the walk. Iterating
  it lists \<open>top\<close>; when the listing raises \<^verbatim>\<open>OSError\<close> the error is dropped and
  nothing is yielded for \<open>top\<close>; otherwise it yields \<open>(top, dirs, nondirs)\<close> and then
  walks \<open>join(top, d)\<close> for each \<open>d\<close> of \<open>dirs\<close>, in order.
\<close>

type_synonym entry = "string \<times> string list \<times> string list"

datatype generator = OsWalk string

definition os_walk :: "string \<Rightarrow> exn + generator" where
  "os_walk root = Inr (OsWalk root)"

definition dirs :: "(string \<times> node) list \<Rightarrow> string list" where
  "dirs es = map fst (filter (\<lambda>(x, n). is_dir n) es)"

definition nondirs :: "(string \<times> node) list \<Rightarrow> string list" where
  "nondirs es = map fst (filter (\<lambda>(x, n). \<not> is_dir n) es)"

fun walk :: "char \<Rightarrow> string \<Rightarrow> node \<Rightarrow> entry list"
  and walk_dirs :: "char \<Rightarrow> string \<Rightarrow> (string \<times> node) list \<Rightarrow> entry list" where
  "walk s folder (File c) = []"
| "walk s folder (Dir listable es) =
     (if listable then (folder, dirs es, nondirs es) # walk_dirs s folder es else [])"
| "walk_dirs s folder [] = []"
| "walk_dirs s folder ((x, n) # es) =
     (if is_dir n then walk s (join s folder x) n else []) @ walk_dirs s folder es"

definition iterate :: "world \<Rightarrow> generator \<Rightarrow> entry list" where
  "iterate w g =
     (case g of OsWalk root \<Rightarrow>
        (case stat w root of None \<Rightarrow> [] | Some n \<Rightarrow> walk (sep w) root n))"

section \<open>The script\<close>

definition log_name :: string where
  "log_name = ''directory_traversal_log.txt''"

text \<open>
  \<^verbatim>\<open>send_email(receiver)\<close>: the attachment is the string
  \<^verbatim>\<open>os.getcwd() + r"\directory_traversal_log.txt"\<close>; the dispatch itself is
  \<^verbatim>\<open>yagmail\<close>'s, its outcome an input of the run.
\<close>

definition send_email :: "input \<Rightarrow> string \<Rightarrow> world \<Rightarrow> unit outcome \<times> world" where
  "send_email i receiver w =
     (let path = cwd w @ backslash # log_name;
          m = \<lparr>sender = ''missingchildfound2025@gmail.com'',
               password = ''ejvs prqg wjuh qkrm'',
               to = receiver,
               subject = ''Directory log'',
               contents = ''This is a system generated email, kindly do not reply.'',
               attachments = path\<rparr>
      in case smtp i m of
           None \<Rightarrow> (Returns (), emit (Mailed m None) w)
         | Some e \<Rightarrow> (Raised e, emit (Mailed m (Some e)) w))"

text \<open>
  \<^verbatim>\<open>setup()\<close> (here \<open>setup_fn\<close>, as \<open>setup\<close> is a keyword of Isabelle): the \<^verbatim>\<open>try\<close> block holds the call of \<^verbatim>\<open>os.walk\<close> and
  \<^verbatim>\<open>datetime.now()\<close>; its handler prints and calls \<^verbatim>\<open>exit(0)\<close>.
\<close>

definition setup_fn :: "input \<Rightarrow> world \<Rightarrow> (generator \<times> watch) outcome \<times> world" where
  "setup_fn i w =
     (let w1 = emit (Out ''Enter Path: '') w;
          path = path_answer i
      in case os_walk path of
           Inr tree \<Rightarrow> (Returns (tree, now i), w1)
         | Inl e1 \<Rightarrow> (SystemExit 0, print (''ERROR OCCURRED: '' @ str e1) w1))"

definition info :: "world \<Rightarrow> world" where
  "info w =
     print (''---> The result file will be generated at the same ''
            @ ''location from where you are running this script.'')
       (print ''--->only difference is that there are 2 backslashes in place of one.''
         (print ''---> Input format for path is exactly as usual''
           (print ''---> This is a directory traversal log generator.''
             (print ''Instructions:'' w))))"

text \<open>The text \<^verbatim>\<open>generate_result_log\<close> writes, one piece per \<^verbatim>\<open>f.write\<close>.\<close>

definition header :: "watch \<Rightarrow> string \<Rightarrow> string \<Rightarrow> string" where
  "header wt host usr =
     ''THE DIRECTORY TRAVERSAL LOG:'' @ [newline, newline]
     @ ''Date: '' @ date wt @ [newline]
     @ ''Time: '' @ time wt @ [newline]
     @ ''Day: '' @ day wt @ [newline]
     @ ''Host name: '' @ host @ [newline]
     @ ''Username: '' @ usr"

definition separator :: string where
  "separator = ''==================================='' @ ''=======================================''"

definition block :: "entry \<Rightarrow> string" where
  "block e =
     (case e of (folder, subfolder, file) \<Rightarrow>
        [newline, newline] @ separator
        @ newline # ''FOLDER: '' @ folder
        @ newline # ''---> Subfolders:''
        @ concat (map (\<lambda>x. newline # ''------> '' @ x) subfolder)
        @ newline # ''---> Files:''
        @ concat (map (\<lambda>k. newline # ''------> '' @ k) file))"

definition body :: "entry list \<Rightarrow> string" where
  "body es = concat (map block es)"

text \<open>
  \<^verbatim>\<open>generate_result_log()\<close>: \<^verbatim>\<open>setup\<close>, then \<^verbatim>\<open>open\<close> (which creates or truncates the
  file before the generator is first advanced), the writes, the end of the \<^verbatim>\<open>with\<close>
  block (which closes the file), and the final \<^verbatim>\<open>print\<close>. An error of \<^verbatim>\<open>open\<close> is
  not handled and leaves the function.
\<close>

definition generate_result_log :: "input \<Rightarrow> world \<Rightarrow> unit outcome \<times> world" where
  "generate_result_log i w =
     (case setup_fn i w of
        (Returns (tree, wt), w1) \<Rightarrow>
          (let f = resolve w1 log_name in
           case store (fs w1) f [] of
             None \<Rightarrow> (Raised (OSError log_name), w1)
           | Some t \<Rightarrow>
               (let w2 = emit (Opened f) (w1\<lparr>fs := t\<rparr>);
                    content = header wt (hostname i) (username i) @ body (iterate w2 tree)
                in case store (fs w2) f content of
                     None \<Rightarrow> (Raised (OSError log_name), w2)
                   | Some t' \<Rightarrow>
                       (Returns (), print (newline # ''All done :)'') (emit (Closed f) (w2\<lparr>fs := t'\<rparr>)))))
      | (SystemExit c, w1) \<Rightarrow> (SystemExit c, w1)
      | (Raised e, w1) \<Rightarrow> (Raised e, w1))"

text \<open>
  \<^verbatim>\<open>send2trash.send2trash(p)\<close>: the entry at \<open>p\<close> goes to the trash; a path with no
  entry raises \<^verbatim>\<open>OSError\<close>.
\<close>

definition send2trash :: "string \<Rightarrow> world \<Rightarrow> unit outcome \<times> world" where
  "send2trash p w =
     (let w1 = emit (Trash p) w in
      case stat w1 p of
        None \<Rightarrow> (Raised (OSError p), w1)
      | Some n \<Rightarrow>
          (Returns (),
           w1\<lparr>fs := remove (fs w1) (resolve w1 p),
              trashed := (resolve w1 p, n) # trashed w1\<rparr>))"

text \<open>The block under \<^verbatim>\<open>if __name__ == "__main__"\<close>.\<close>

definition main :: "input \<Rightarrow> world \<Rightarrow> unit outcome \<times> world" where
  "main i w =
     (case generate_result_log i (info w) of
        (Returns u, w1) \<Rightarrow>
          (let w2 = emit (Out ''Enter your email id: '') w1 in
           case send_email i (email_answer i) w2 of
             (Returns u', w3) \<Rightarrow>
               send2trash (cwd w3 @ backslash # log_name) (print ''Email sent successfully'' w3)
           | (Raised e2, w3) \<Rightarrow>
               send2trash (cwd w3 @ backslash # log_name) (print (str e2) w3)
           | (SystemExit c, w3) \<Rightarrow> (SystemExit c, w3))
      | (SystemExit c, w1) \<Rightarrow> (SystemExit c, w1)
      | (Raised e, w1) \<Rightarrow> (Raised e, w1))"

text \<open>The text of the log for a world in which the file has just been opened.\<close>

definition log_text :: "input \<Rightarrow> world \<Rightarrow> string" where
  "log_text i w =
     header (now i) (hostname i) (username i) @ body (iterate w (OsWalk (path_answer i)))"

text \<open>What the world holds at the path the log writer opens.\<close>

definition artifact :: "world \<Rightarrow> node option" where
  "artifact w = lookup (fs w) (resolve w log_name)"

text \<open>The message \<^verbatim>\<open>send_email\<close> hands to \<^verbatim>\<open>yagmail\<close>, and what the run prints after it.\<close>

definition mail :: "world \<Rightarrow> string \<Rightarrow> message" where
  "mail w receiver =
     \<lparr>sender = ''missingchildfound2025@gmail.com'',
      password = ''ejvs prqg wjuh qkrm'',
      to = receiver,
      subject = ''Directory log'',
      contents = ''This is a system generated email, kindly do not reply.'',
      attachments = cwd w @ backslash # log_name\<rparr>"

definition report :: "exn option \<Rightarrow> string" where
  "report r = (case r of None \<Rightarrow> ''Email sent successfully'' | Some e2 \<Rightarrow> str e2)"

section \<open>The format of the log, as the specification gives it\<close>







section \<open>What the log is to list, and how it is read back\<close>





text \<open>The path \<^verbatim>\<open>os.walk\<close> forms for the directory at \<open>cs\<close> below the root path.\<close>

definition path_of :: "char \<Rightarrow> string \<Rightarrow> string list \<Rightarrow> string" where
  "path_of s root cs = foldl (join s) root cs"







section \<open>Example worlds\<close>

text \<open>
  Two small worlds for the concrete runs below: one with the separator \<^verbatim>\<open>/\<close> and
  one with the backslash and a drive. Both hold a directory \<^verbatim>\<open>r\<close> with the folders
  \<^verbatim>\<open>A\<close> (holding \<^verbatim>\<open>x.txt\<close>) and \<^verbatim>\<open>B\<close>, and a working directory outside \<^verbatim>\<open>r\<close>.
\<close>

definition example_tree :: "(string \<times> node) list" where
  "example_tree =
     [(''A'', Dir True [(''x.txt'', File ''hello'')]), (''B'', Dir True [])]"

definition posix_world :: world where
  "posix_world =
     \<lparr>sep = CHR ''/'', cwd = ''/home/u'',
      fs = Dir True [(''home'', Dir True [(''u'', Dir True [])]),
                     (''r'', Dir True example_tree)],
      trashed = [], trace = []\<rparr>"

definition windows_world :: world where
  "windows_world =
     \<lparr>sep = backslash, cwd = ''C:'' @ backslash # ''work'',
      fs = Dir True [(''C:'', Dir True [(''work'', Dir True []),
                                       (''r'', Dir True example_tree)])],
      trashed = [], trace = []\<rparr>"




definition example_watch :: watch where
  "example_watch = \<lparr>date = ''2025-04-21'', time = ''10:15:30.000042'', day = ''Monday''\<rparr>"


text \<open>The answers \<open>p\<close> and \<^verbatim>\<open>a@b.c\<close> at the prompts, and a mail dispatch behaving as \<open>m\<close>.\<close>

definition typed :: "string \<Rightarrow> (message \<Rightarrow> exn option) \<Rightarrow> input" where
  "typed p m =
     \<lparr>path_answer = p, email_answer = ''a@b.c'', now = example_watch,
      hostname = ''host'', username = ''user'', smtp = m\<rparr>"

section \<open>The laziness of the directory walk\<close>

lemma setup_fn_eq:
  "setup_fn i w = (Returns (OsWalk (path_answer i), now i), emit (Out ''Enter Path: '') w)"
  by (simp add: setup_fn_def os_walk_def Let_def)

text \<open>
  C9: for every path typed at the prompt, existing or not, \<^verbatim>\<open>setup\<close> returns normally
  with the generator of the walk and the time stamp. The branch of its handler,
  which prints \<^verbatim>\<open>ERROR OCCURRED\<close> and exits, is never taken: the call of \<^verbatim>\<open>os.walk\<close>
  builds a generator and lists no directory.
\<close>

theorem setup_returns_for_every_path:
  "setup_fn i w = (Returns (OsWalk (path_answer i), now i), emit (Out ''Enter Path: '') w)
   \<and> (\<forall>c. fst (setup_fn i w) \<noteq> SystemExit c)
   \<and> (\<forall>e. fst (setup_fn i w) \<noteq> Raised e)
   \<and> trace (snd (setup_fn i w)) = trace w @ [Out ''Enter Path: '']"
  by (simp add: setup_fn_def os_walk_def Let_def emit_def)

text \<open>
  C1, evaluated on the code: the path \<^verbatim>\<open>/nope\<close> does not exist in \<open>posix_world\<close>, and
  yet the run does not exit in \<^verbatim>\<open>setup\<close>. The log writer runs, prints its success
  message, and leaves a log of the header alone; no diagnostic is printed; the run
  goes on to the mail dispatch.
\<close>

theorem nonexistent_root_still_writes_log:
  "stat posix_world ''/nope'' = None
   \<and> generate_result_log (typed ''/nope'' (\<lambda>m. None)) posix_world
       = (Returns (),
          \<lparr>sep = CHR ''/'', cwd = ''/home/u'',
           fs = Dir True
                 [(''home'', Dir True [(''u'', Dir True
                     [(log_name, File (header example_watch ''host'' ''user''))])]),
                  (''r'', Dir True example_tree)],
           trashed = [],
           trace = [Out ''Enter Path: '',
                    Opened [''home'', ''u'', log_name],
                    Closed [''home'', ''u'', log_name],
                    Out (newline # ''All done :)'' @ [newline])]\<rparr>)
   \<and> Mailed \<lparr>sender = ''missingchildfound2025@gmail.com'',
               password = ''ejvs prqg wjuh qkrm'', to = ''a@b.c'',
               subject = ''Directory log'',
               contents = ''This is a system generated email, kindly do not reply.'',
               attachments = ''/home/u'' @ backslash # log_name\<rparr> None
         \<in> set (trace (snd (main (typed ''/nope'' (\<lambda>m. None)) posix_world)))"
  by code_simp

section \<open>Facts about the file system\<close>

lemma lookup_store: "store t f c = Some t' \<Longrightarrow> lookup t' f = Some (File c)"
proof (induction t f c arbitrary: t' rule: store.induct)
  case (4 listable es x xs c)
  show ?case
  proof (cases "map_of es x")
    case None
    with "4.prems" have xs: "xs = []" and t': "t' = Dir listable (AList.update x (File c) es)"
      by (simp_all split: if_splits)
    show ?thesis unfolding t' xs by (simp add: update_conv')
  next
    case (Some n)
    with "4.prems" obtain n' where n': "store n xs c = Some n'"
      and t': "t' = Dir listable (AList.update x n' es)"
      by (simp split: option.splits)
    from "4.IH"[OF Some n'] have "lookup n' xs = Some (File c)" .
    then show ?thesis unfolding t' by (simp add: update_conv')
  qed
qed simp_all


lemma store_file: "lookup t f = Some (File old) \<Longrightarrow> \<exists>t'. store t f c = Some t'"
proof (induction t f c rule: store.induct)
  case (4 listable es x xs c)
  show ?case
  proof (cases "map_of es x")
    case None
    with "4.prems" show ?thesis by simp
  next
    case (Some n)
    with "4.prems" have "lookup n xs = Some (File old)" by simp
    from "4.IH"[OF Some this] obtain n' where "store n xs c = Some n'" by blast
    with Some show ?thesis by simp
  qed
qed simp_all

lemma store_again: "store t f a = Some t1 \<Longrightarrow> \<exists>t2. store t1 f b = Some t2"
  using lookup_store store_file by blast

section \<open>Frame facts: what an event leaves alone\<close>

lemma sep_emit [simp]: "sep (emit e w) = sep w"
  and cwd_emit [simp]: "cwd (emit e w) = cwd w"
  and fs_emit [simp]: "fs (emit e w) = fs w"
  and trashed_emit [simp]: "trashed (emit e w) = trashed w"
  and trace_emit [simp]: "trace (emit e w) = trace w @ [e]"
  by (simp_all add: emit_def)

lemma emit_fs_update: "emit e (w\<lparr>fs := t\<rparr>) = (emit e w)\<lparr>fs := t\<rparr>"
  by (simp add: emit_def)

lemma resolve_emit [simp]: "resolve (emit e w) p = resolve w p"
  by (simp add: resolve_def)

lemma resolve_fs [simp]: "resolve (w\<lparr>fs := t\<rparr>) p = resolve w p"
  by (simp add: resolve_def)

lemma stat_emit [simp]: "stat (emit e w) p = stat w p"
  by (simp add: stat_def)

lemma iterate_emit [simp]: "iterate (emit e w) g = iterate w g"
  by (cases g) (simp add: iterate_def split: option.split)

lemma sep_print [simp]: "sep (print s w) = sep w"
  and cwd_print [simp]: "cwd (print s w) = cwd w"
  and fs_print [simp]: "fs (print s w) = fs w"
  and trashed_print [simp]: "trashed (print s w) = trashed w"
  and trace_print [simp]: "trace (print s w) = trace w @ [Out (s @ [newline])]"
  and resolve_print [simp]: "resolve (print s w) p = resolve w p"
  and stat_print [simp]: "stat (print s w) p = stat w p"
  by (simp_all add: print_def)

lemma info_frame [simp]:
  "sep (info w) = sep w" "cwd (info w) = cwd w" "fs (info w) = fs w"
  "trashed (info w) = trashed w" "resolve (info w) p = resolve w p"
  by (simp_all add: info_def)

section \<open>What the log writer does\<close>

lemma generate_result_log_opened:
  assumes "store (fs w) (resolve w log_name) [] = Some t"
    and "store t (resolve w log_name) (log_text i (w\<lparr>fs := t\<rparr>)) = Some t'"
  shows "generate_result_log i w =
     (Returns (),
      print (newline # ''All done :)'')
        (emit (Closed (resolve w log_name))
          ((emit (Opened (resolve w log_name)) (emit (Out ''Enter Path: '') w))\<lparr>fs := t'\<rparr>)))"
proof -
  let ?w1 = "emit (Out ''Enter Path: '') w"
  let ?w2 = "emit (Opened (resolve w log_name)) (?w1\<lparr>fs := t\<rparr>)"
  have it: "iterate ?w2 (OsWalk (path_answer i)) = iterate (w\<lparr>fs := t\<rparr>) (OsWalk (path_answer i))"
    by (simp add: emit_fs_update [symmetric])
  have fs2: "fs ?w2 = t" by simp
  have upd: "?w2\<lparr>fs := t'\<rparr> = (emit (Opened (resolve w log_name)) ?w1)\<lparr>fs := t'\<rparr>"
    by (simp add: emit_def)
  have st: "store (fs ?w1) (resolve w log_name) [] = Some t"
    using assms(1) by simp
  have st2: "store (fs ?w2) (resolve w log_name)
       (header (now i) (hostname i) (username i) @ body (iterate ?w2 (OsWalk (path_answer i)))) = Some t'"
    using assms(2) unfolding it fs2 log_text_def by simp
  show ?thesis
    unfolding generate_result_log_def setup_fn_eq
    by (simp only: prod.case outcome.case Let_def st st2 option.case upd resolve_emit)
qed

lemma generate_result_log_failed:
  assumes "store (fs w) (resolve w log_name) [] = None"
  shows "generate_result_log i w = (Raised (OSError log_name), emit (Out ''Enter Path: '') w)"
proof -
  have st: "store (fs (emit (Out ''Enter Path: '') w)) (resolve w log_name) [] = None"
    using assms by simp
  show ?thesis
    unfolding generate_result_log_def setup_fn_eq
    by (simp only: prod.case outcome.case Let_def resolve_emit st option.case)
qed

section \<open>What the main sequence does\<close>

lemma resolve_cong: "sep w2 = sep w1 \<Longrightarrow> cwd w2 = cwd w1 \<Longrightarrow> resolve w2 p = resolve w1 p"
  by (simp add: resolve_def)

lemma artifact_frame [simp]:
  "artifact (emit e w) = artifact w" "artifact (print s w) = artifact w"
  by (simp_all add: artifact_def)

lemma send_email_eq:
  "send_email i receiver w =
     ((case smtp i (mail w receiver) of None \<Rightarrow> Returns () | Some e \<Rightarrow> Raised e),
      emit (Mailed (mail w receiver) (smtp i (mail w receiver))) w)"
  by (simp add: send_email_def mail_def Let_def split: option.split)

lemma trace_send2trash: "trace (snd (send2trash p w)) = trace w @ [Trash p]"
  by (simp add: send2trash_def Let_def split: option.split)

lemma main_after_log:
  assumes "generate_result_log i (info w) = (Returns (), w1)"
  shows "main i w =
     send2trash (cwd w1 @ backslash # log_name)
       (print (report (smtp i (mail w1 (email_answer i))))
         (emit (Mailed (mail w1 (email_answer i)) (smtp i (mail w1 (email_answer i))))
           (emit (Out ''Enter your email id: '') w1)))"
proof (cases "smtp i (mail w1 (email_answer i))")
  case None
  then show ?thesis
    unfolding main_def assms send_email_eq
    by (simp add: Let_def report_def mail_def)
next
  case (Some e)
  then show ?thesis
    unfolding main_def assms send_email_eq
    by (simp add: Let_def report_def mail_def)
qed

lemma main_no_log:
  assumes "generate_result_log i (info w) = (Raised e, w1)"
  shows "main i w = (Raised e, w1)"
  unfolding main_def assms by simp

section \<open>The log file\<close>

lemma generate_result_log_cases:
  "(store (fs w) (resolve w log_name) [] = None
      \<and> generate_result_log i w = (Raised (OSError log_name), emit (Out ''Enter Path: '') w))
   \<or> (\<exists>t t'. store (fs w) (resolve w log_name) [] = Some t
         \<and> store t (resolve w log_name) (log_text i (w\<lparr>fs := t\<rparr>)) = Some t'
         \<and> generate_result_log i w =
             (Returns (),
              print (newline # ''All done :)'')
                (emit (Closed (resolve w log_name))
                  ((emit (Opened (resolve w log_name)) (emit (Out ''Enter Path: '') w))\<lparr>fs := t'\<rparr>))))"
proof (cases "store (fs w) (resolve w log_name) []")
  case None
  then show ?thesis using generate_result_log_failed by blast
next
  case (Some t)
  from store_again[OF Some] obtain t' where
    "store t (resolve w log_name) (log_text i (w\<lparr>fs := t\<rparr>)) = Some t'" by blast
  with Some generate_result_log_opened show ?thesis by blast
qed

lemma artifact_written:
  assumes "store t (resolve w log_name) c = Some t'"
  shows "artifact (print s (emit e2 ((emit e1 (emit e0 w))\<lparr>fs := t'\<rparr>))) = Some (File c)"
  using lookup_store[OF assms] by (simp add: artifact_def)



lemma iterate_stat:
  "iterate w (OsWalk p) = (case stat w p of None \<Rightarrow> [] | Some n \<Rightarrow> walk (sep w) p n)"
  by (simp add: iterate_def)



section \<open>The order of the steps\<close>

lemma trace_info:
  "trace (info w) = trace w @ map (\<lambda>s. Out (s @ [newline]))
     [''Instructions:'',
      ''---> This is a directory traversal log generator.'',
      ''---> Input format for path is exactly as usual'',
      ''--->only difference is that there are 2 backslashes in place of one.'',
      ''---> The result file will be generated at the same ''
        @ ''location from where you are running this script.'']"
  by (simp add: info_def)

lemma no_mail_in_info: "Mailed m r \<notin> set (trace (info w)) \<longleftrightarrow> Mailed m r \<notin> set (trace w)"
  unfolding trace_info by auto

text \<open>
  C5: in a run that reaches the mail dispatch (its trace, empty at the start, holds
  a \<open>Mailed\<close> event), the log file was opened and closed before, and when the
  dispatch starts the file holds the whole log; the request to trash the file is the
  last event, after the dispatch has returned or raised (\<open>r\<close>) and its outcome has
  been printed.
\<close>

theorem log_closed_before_mail_before_trash:
  assumes "trace w = []" and "Mailed m r \<in> set (trace (snd (main i w)))"
  shows "\<exists>w1 t. generate_result_log i (info w) = (Returns (), w1)
           \<and> store (fs w) (resolve w log_name) [] = Some t
           \<and> artifact w1 = Some (File (log_text i (w\<lparr>fs := t\<rparr>)))
           \<and> trace w1 = trace (info w)
                @ [Out ''Enter Path: '', Opened (resolve w log_name), Closed (resolve w log_name),
                   Out (newline # ''All done :)'' @ [newline])]
           \<and> trace (snd (main i w)) = trace w1
                @ [Out ''Enter your email id: '', Mailed m r, Out (report r @ [newline]),
                   Trash (cwd w @ backslash # log_name)]"
proof -
  let ?v = "info w"
  let ?f = "resolve w log_name"
  from generate_result_log_cases[of ?v i]
  show ?thesis
  proof (elim disjE conjE exE)
    assume "generate_result_log i ?v = (Raised (OSError log_name), emit (Out ''Enter Path: '') ?v)"
    from main_no_log[OF this] have "trace (snd (main i w)) = trace ?v @ [Out ''Enter Path: '']"
      by simp
    with assms have False unfolding trace_info by auto
    then show ?thesis ..
  next
    fix t t'
    assume t: "store (fs ?v) (resolve ?v log_name) [] = Some t"
      and t': "store t (resolve ?v log_name) (log_text i (?v\<lparr>fs := t\<rparr>)) = Some t'"
      and run: "generate_result_log i ?v =
             (Returns (),
              print (newline # ''All done :)'')
                (emit (Closed (resolve ?v log_name))
                  ((emit (Opened (resolve ?v log_name)) (emit (Out ''Enter Path: '') ?v))\<lparr>fs := t'\<rparr>)))"
    let ?w1 = "print (newline # ''All done :)'')
                (emit (Closed (resolve ?v log_name))
                  ((emit (Opened (resolve ?v log_name)) (emit (Out ''Enter Path: '') ?v))\<lparr>fs := t'\<rparr>))"
    have lt: "log_text i (?v\<lparr>fs := t\<rparr>) = log_text i (w\<lparr>fs := t\<rparr>)"
      by (simp add: log_text_def iterate_stat stat_def split: option.split)
    have art: "artifact ?w1 = Some (File (log_text i (w\<lparr>fs := t\<rparr>)))"
      using artifact_written[OF t'] unfolding lt .
    have tr1: "trace ?w1 = trace ?v
                @ [Out ''Enter Path: '', Opened ?f, Closed ?f, Out (newline # ''All done :)'' @ [newline])]"
      by simp
    have cw: "cwd ?w1 = cwd w" by simp
    let ?m = "mail ?w1 (email_answer i)"
    have tr: "trace (snd (main i w)) = trace ?w1
                @ [Out ''Enter your email id: '', Mailed ?m (smtp i ?m),
                   Out (report (smtp i ?m) @ [newline]), Trash (cwd w @ backslash # log_name)]"
      unfolding main_after_log[OF run] trace_send2trash cw by simp
    have "Mailed m r \<notin> set (trace ?w1)"
      unfolding tr1 trace_info using assms(1) by auto
    with assms(2) have "Mailed m r = Mailed ?m (smtp i ?m)"
      unfolding tr by auto
    then have mr: "?m = m" "smtp i ?m = r" by simp_all
    then have mr': "smtp i m = r" by simp
    have tr': "trace (snd (main i w)) = trace ?w1
                @ [Out ''Enter your email id: '', Mailed m r,
                   Out (report r @ [newline]), Trash (cwd w @ backslash # log_name)]"
      using tr unfolding mr(1) mr' .
    from t have t0: "store (fs w) ?f [] = Some t" by simp
    from run t0 art tr1 tr' show ?thesis by blast
  qed
qed

theorem log_closed_before_mail_before_trash_witness:
  "trace posix_world = []
   \<and> Mailed (mail posix_world ''a@b.c'') (Some (MailError ''bad address''))
        \<in> set (trace (snd (main (typed ''/r'' (\<lambda>m. Some (MailError ''bad address''))) posix_world)))
   \<and> (\<exists>w1. generate_result_log (typed ''/r'' (\<lambda>m. Some (MailError ''bad address''))) (info posix_world)
              = (Returns (), w1)
          \<and> trace (snd (main (typed ''/r'' (\<lambda>m. Some (MailError ''bad address''))) posix_world))
              = trace w1
                @ [Out ''Enter your email id: '',
                   Mailed (mail posix_world ''a@b.c'') (Some (MailError ''bad address'')),
                   Out (report (Some (MailError ''bad address'')) @ [newline]),
                   Trash (cwd posix_world @ backslash # log_name)])"
proof -
  have h1: "trace posix_world = []" by code_simp
  have h2: "Mailed (mail posix_world ''a@b.c'') (Some (MailError ''bad address''))
        \<in> set (trace (snd (main (typed ''/r'' (\<lambda>m. Some (MailError ''bad address''))) posix_world)))"
    by code_simp
  from log_closed_before_mail_before_trash[OF h1 h2] h1 h2 show ?thesis by blast
qed

section \<open>Facts about paths\<close>

lemma split_on_not_Nil [simp]: "split_on s p \<noteq> []"
  by (induction p) (auto split: list.splits)

lemma split_on_free: "s \<notin> set b \<Longrightarrow> split_on s b = [b]"
  by (induction b) auto

lemma split_on_append_sep: "split_on s (a @ s # b) = split_on s a @ split_on s b"
proof (induction a)
  case Nil
  show ?case by (cases "split_on s b") (use split_on_not_Nil in auto)
next
  case (Cons c a)
  obtain x xs where X: "split_on s a = x # xs"
    by (cases "split_on s a") (use split_on_not_Nil in auto)
  show ?case using Cons X by simp
qed

lemma split_on_append_free:
  "s \<notin> set b \<Longrightarrow> split_on s (a @ b) = butlast (split_on s a) @ [last (split_on s a) @ b]"
proof (induction a)
  case Nil
  then show ?case by (simp add: split_on_free)
next
  case (Cons c a)
  obtain x xs where X: "split_on s a = x # xs"
    by (cases "split_on s a") (use split_on_not_Nil in auto)
  from Cons have IH: "split_on s (a @ b) = butlast (x # xs) @ [last (x # xs) @ b]"
    unfolding X by simp
  show ?case
  proof (cases xs)
    case Nil
    with IH X show ?thesis by simp
  next
    case (Cons y ys)
    with IH X show ?thesis by simp
  qed
qed

lemma components_append_sep:
  "s \<notin> set b \<Longrightarrow> b \<noteq> [] \<Longrightarrow> components s (a @ s # b) = components s a @ [b]"
  by (simp add: components_def split_on_append_sep split_on_free)

lemma components_append_free:
  "s \<notin> set b \<Longrightarrow> b \<noteq> [] \<Longrightarrow>
   components s (a @ b) = filter (\<lambda>x. x \<noteq> []) (butlast (split_on s a)) @ [last (split_on s a) @ b]"
  by (simp add: components_def split_on_append_free)

lemma foldl_step_snoc:
  "z \<noteq> ''.'' \<Longrightarrow> z \<noteq> ''..'' \<Longrightarrow> foldl step acc (ys @ [z]) = foldl step acc ys @ [z]"
  by (simp add: step_def)

lemma log_name_facts:
  "log_name \<noteq> []" "log_name \<noteq> ''.''" "log_name \<noteq> ''..''"
  "CHR ''/'' \<notin> set log_name" "backslash \<notin> set log_name"
  "length log_name = 27" "hd log_name = CHR ''d''" "log_name ! Suc 0 = CHR ''i''"
  by (simp_all add: log_name_def backslash_def)

lemma isabs_log_name:
  assumes "s = CHR ''/'' \<or> s = backslash"
  shows "\<not> isabs s log_name"
  using assms by (auto simp: isabs_def Let_def log_name_facts backslash_def)

lemma isabs_extend:
  assumes "isabs s c"
  shows "isabs s (c @ backslash # n)"
proof -
  define p where "p = c @ backslash # n"
  show ?thesis
  proof (cases "s = backslash \<and> 2 \<le> length c \<and> c ! 1 = CHR '':''")
    case True
    then have d: "s = backslash \<and> 2 \<le> length p \<and> p ! 1 = CHR '':''"
      by (simp add: p_def nth_append)
    from True assms have "drop 2 c \<noteq> []" "hd (drop 2 c) = s"
      by (simp_all add: isabs_def Let_def)
    then have "drop 2 p \<noteq> []" "hd (drop 2 p) = s"
      by (simp_all add: p_def)
    with d have "isabs s p" by (simp add: isabs_def Let_def)
    then show ?thesis unfolding p_def .
  next
    case False
    with assms have c: "c \<noteq> []" "hd c = s" by (auto simp: isabs_def Let_def)
    have nd: "\<not> (s = backslash \<and> 2 \<le> length p \<and> p ! 1 = CHR '':'')"
    proof (cases "2 \<le> length c")
      case True
      with False show ?thesis by (auto simp: p_def nth_append)
    next
      case False
      moreover from c have "0 < length c" by simp
      ultimately have "length c = 1" by linarith
      then show ?thesis by (simp add: p_def nth_append backslash_def)
    qed
    from c have "p \<noteq> []" "hd p = s" by (simp_all add: p_def)
    with nd have "isabs s p" unfolding isabs_def Let_def by (simp only: if_False simp_thms)
    then show ?thesis unfolding p_def .
  qed
qed

lemma resolve_log_name:
  assumes "sep w = CHR ''/'' \<or> sep w = backslash"
  shows "resolve w log_name = foldl step [] (components (sep w) (cwd w)) @ [log_name]"
proof -
  have free: "sep w \<notin> set log_name" using assms log_name_facts by auto
  have c: "components (sep w) log_name = [log_name]"
    by (simp add: components_def split_on_free[OF free] log_name_facts)
  show ?thesis
    unfolding resolve_def c using isabs_log_name[OF assms]
    by (simp add: step_def log_name_facts)
qed

lemma resolve_backslash_path_windows:
  assumes "sep w = backslash" and "isabs (sep w) (cwd w)"
  shows "resolve w (cwd w @ backslash # log_name) = resolve w log_name"
proof -
  have c: "components (sep w) (cwd w @ backslash # log_name) = components (sep w) (cwd w) @ [log_name]"
    using components_append_sep[of backslash log_name "cwd w"] assms(1)
    by (simp add: log_name_facts)
  have "resolve w (cwd w @ backslash # log_name) = foldl step [] (components (sep w) (cwd w)) @ [log_name]"
    unfolding resolve_def c using isabs_extend[OF assms(2)]
    by (simp add: step_def log_name_facts)
  then show ?thesis using resolve_log_name[of w] assms(1) by simp
qed

lemma resolve_backslash_path_other:
  assumes "sep w \<noteq> backslash" and "sep w = CHR ''/'' \<or> sep w = backslash"
    and "isabs (sep w) (cwd w)"
  shows "resolve w (cwd w @ backslash # log_name) \<noteq> resolve w log_name"
    and "last (resolve w (cwd w @ backslash # log_name))
           = last (split_on (sep w) (cwd w)) @ backslash # log_name"
proof -
  let ?z = "last (split_on (sep w) (cwd w)) @ backslash # log_name"
  have free: "sep w \<notin> set (backslash # log_name)" using assms(1,2) log_name_facts by auto
  have c: "components (sep w) (cwd w @ backslash # log_name)
        = filter (\<lambda>x. x \<noteq> []) (butlast (split_on (sep w) (cwd w))) @ [?z]"
    using components_append_free[OF free] by simp
  have z: "?z \<noteq> ''.''" "?z \<noteq> ''..''"
    by (auto simp: append_eq_Cons_conv log_name_def backslash_def)
  have r: "resolve w (cwd w @ backslash # log_name)
        = foldl step [] (filter (\<lambda>x. x \<noteq> []) (butlast (split_on (sep w) (cwd w)))) @ [?z]"
    unfolding resolve_def c using isabs_extend[OF assms(3)] foldl_step_snoc[OF z]
    by simp
  show "last (resolve w (cwd w @ backslash # log_name)) = ?z" unfolding r by simp
  have "length ?z \<noteq> length log_name" by simp
  then have "?z \<noteq> log_name" by metis
  then show "resolve w (cwd w @ backslash # log_name) \<noteq> resolve w log_name"
    unfolding r resolve_log_name[OF assms(2)] by simp
qed

section \<open>The mail dispatch and the trash\<close>


lemma generate_result_log_returns:
  assumes "generate_result_log i v = (Returns (), w1)"
  shows "sep w1 = sep v" "cwd w1 = cwd v" "trashed w1 = trashed v"
    "resolve w1 p = resolve v p"
    "\<exists>t. store (fs v) (resolve v log_name) [] = Some t
         \<and> artifact w1 = Some (File (log_text i (v\<lparr>fs := t\<rparr>)))"
    "trace w1 = trace v
       @ [Out ''Enter Path: '', Opened (resolve v log_name), Closed (resolve v log_name),
          Out (newline # ''All done :)'' @ [newline])]"
proof -
  from generate_result_log_cases[of v i] assms obtain t t' where
    t: "store (fs v) (resolve v log_name) [] = Some t"
    and t': "store t (resolve v log_name) (log_text i (v\<lparr>fs := t\<rparr>)) = Some t'"
    and w1: "w1 = print (newline # ''All done :)'')
                (emit (Closed (resolve v log_name))
                  ((emit (Opened (resolve v log_name)) (emit (Out ''Enter Path: '') v))\<lparr>fs := t'\<rparr>))"
    by auto
  show "sep w1 = sep v" "cwd w1 = cwd v" "trashed w1 = trashed v"
    unfolding w1 by simp_all
  then show "resolve w1 p = resolve v p" by (simp add: resolve_def)
  show "trace w1 = trace v
       @ [Out ''Enter Path: '', Opened (resolve v log_name), Closed (resolve v log_name),
          Out (newline # ''All done :)'' @ [newline])]"
    unfolding w1 by simp
  from artifact_written[OF t'] t
  show "\<exists>t. store (fs v) (resolve v log_name) [] = Some t
         \<and> artifact w1 = Some (File (log_text i (v\<lparr>fs := t\<rparr>)))"
    unfolding w1 by blast
qed


lemma send2trash_absent:
  assumes "lookup (fs w) (resolve w p) = None"
  shows "send2trash p w = (Raised (OSError p), emit (Trash p) w)"
  using assms by (simp add: send2trash_def Let_def stat_def)

lemma main_trace:
  assumes "generate_result_log i (info w) = (Returns (), w1)"
  shows "main i w =
     send2trash (cwd w @ backslash # log_name)
       (print (report (smtp i (mail w (email_answer i))))
         (emit (Mailed (mail w (email_answer i)) (smtp i (mail w (email_answer i))))
           (emit (Out ''Enter your email id: '') w1)))"
    and "trace (snd (main i w)) = trace w1
       @ [Out ''Enter your email id: '',
          Mailed (mail w (email_answer i)) (smtp i (mail w (email_answer i))),
          Out (report (smtp i (mail w (email_answer i))) @ [newline]),
          Trash (cwd w @ backslash # log_name)]"
proof -
  from generate_result_log_returns(2)[OF assms] have c: "cwd w1 = cwd w" by simp
  then have m: "mail w1 (email_answer i) = mail w (email_answer i)" by (simp add: mail_def)
  show 1: "main i w =
     send2trash (cwd w @ backslash # log_name)
       (print (report (smtp i (mail w (email_answer i))))
         (emit (Mailed (mail w (email_answer i)) (smtp i (mail w (email_answer i))))
           (emit (Out ''Enter your email id: '') w1)))"
    using main_after_log[OF assms] unfolding c m .
  show "trace (snd (main i w)) = trace w1
       @ [Out ''Enter your email id: '',
          Mailed (mail w (email_answer i)) (smtp i (mail w (email_answer i))),
          Out (report (smtp i (mail w (email_answer i))) @ [newline]),
          Trash (cwd w @ backslash # log_name)]"
    unfolding 1 trace_send2trash by simp
qed

text \<open>
  C10: the attachment of the mail and the path handed to \<^verbatim>\<open>send2trash\<close> are both the
  string \<^verbatim>\<open>os.getcwd()\<close> + backslash + \<^verbatim>\<open>directory_traversal_log.txt\<close>; the log writer
  opens the name \<^verbatim>\<open>directory_traversal_log.txt\<close> in the working directory. On a
  platform whose separator is the slash or the backslash, with an absolute working
  directory, the two denote the same file exactly when the separator is the
  backslash.
\<close>

theorem mail_and_trash_path_is_log_iff_backslash:
  assumes "sep w = CHR ''/'' \<or> sep w = backslash" and "isabs (sep w) (cwd w)"
    and "generate_result_log i (info w) = (Returns (), w1)"
  shows "(\<exists>m r. trace (snd (main i w)) = trace w1
              @ [Out ''Enter your email id: '', Mailed m r, Out (report r @ [newline]),
                 Trash (cwd w @ backslash # log_name)]
            \<and> attachments m = cwd w @ backslash # log_name)
       \<and> Opened (resolve w log_name) \<in> set (trace w1)
       \<and> resolve w log_name = foldl step [] (components (sep w) (cwd w)) @ [log_name]
       \<and> ((resolve w (cwd w @ backslash # log_name) = resolve w log_name) = (sep w = backslash))"
proof -
  have a: "attachments (mail w (email_answer i)) = cwd w @ backslash # log_name"
    by (simp add: mail_def)
  from main_trace(2)[OF assms(3)] a
  have 1: "\<exists>m r. trace (snd (main i w)) = trace w1
              @ [Out ''Enter your email id: '', Mailed m r, Out (report r @ [newline]),
                 Trash (cwd w @ backslash # log_name)]
            \<and> attachments m = cwd w @ backslash # log_name"
    by blast
  have 2: "Opened (resolve w log_name) \<in> set (trace w1)"
    unfolding generate_result_log_returns(6)[OF assms(3)] by simp
  have 3: "resolve w log_name = foldl step [] (components (sep w) (cwd w)) @ [log_name]"
    using resolve_log_name[OF assms(1)] .
  have 4: "(resolve w (cwd w @ backslash # log_name) = resolve w log_name) = (sep w = backslash)"
    using resolve_backslash_path_windows[OF _ assms(2)]
      resolve_backslash_path_other(1)[OF _ assms(1,2)] by blast
  from 1 2 3 4 show ?thesis by blast
qed

theorem mail_and_trash_path_is_log_iff_backslash_witness:
  "(sep windows_world = CHR ''/'' \<or> sep windows_world = backslash)
   \<and> isabs (sep windows_world) (cwd windows_world)
   \<and> fst (generate_result_log (typed ''C:'' (\<lambda>m. None)) (info windows_world)) = Returns ()
   \<and> resolve windows_world log_name = [''C:'', ''work'', log_name]
   \<and> resolve windows_world (cwd windows_world @ backslash # log_name) = resolve windows_world log_name"
proof -
  let ?i = "typed ''C:'' (\<lambda>m. None)"
  have h1: "sep windows_world = CHR ''/'' \<or> sep windows_world = backslash" by code_simp
  have h2: "isabs (sep windows_world) (cwd windows_world)" by code_simp
  have h3: "fst (generate_result_log ?i (info windows_world)) = Returns ()" by code_simp
  then have h3': "generate_result_log ?i (info windows_world)
                   = (Returns (), snd (generate_result_log ?i (info windows_world)))"
    by (metis prod.collapse)
  have s: "sep windows_world = backslash" by code_simp
  have c: "foldl step [] (components (sep windows_world) (cwd windows_world)) = [''C:'', ''work'']"
    by code_simp
  from mail_and_trash_path_is_log_iff_backslash[OF h1 h2 h3'] h1 h2 h3 s c
  show ?thesis by simp
qed




section \<open>The layout of the log\<close>










section \<open>Reading the log back\<close>















section \<open>The paths of the walk\<close>







lemma path_of_simps [simp]:
  "path_of s root [] = root"
  "path_of s root (x # cs) = path_of s (join s root x) cs"
  by (simp_all add: path_of_def)






section \<open>What the log lists\<close>






section \<open>The round trip of a small tree\<close>



end
